theory Spec2Isabelle
  imports Main
begin

section \<open>The enkodo code generator (cmd/enkodo/enkodo.go)\<close>

text \<open>
  The generator reads the struct declarations of a Go file and writes, for each struct that
  has tagged fields, a \<^verbatim>\<open>MarshalEnkodo\<close> and an \<^verbatim>\<open>UnmarshalEnkodo\<close> method as Go source
  text. The model follows the source function by function. Go strings are byte strings
  (\<^typ>\<open>string\<close>). Every \<^verbatim>\<open>fmt.Fprintf\<close> of the source writes whole lines to an
  append-only writer, so a function that writes returns the list of the lines it wrote, in
  order, each without its final newline; \<open>render\<close> gives the bytes of the file. A run-time
  panic of the source is a value of type \<open>panic\<close>.
\<close>

subsection \<open>Strings\<close>

datatype panic = IndexOutOfRange | SliceBoundsOutOfRange | NilMapAssignment

definition ident :: string where
  "ident = [CHR 0x09]"

definition Repeat :: "string \<Rightarrow> nat \<Rightarrow> string" where
  "Repeat s n = concat (replicate n s)"

definition render :: "string list \<Rightarrow> string" where
  "render ls = concat (map (\<lambda>l. l @ [CHR 0x0A]) ls)"

text \<open>\<^verbatim>\<open>strings.Trim(s, cutset)\<close>: all leading and trailing bytes of the cutset removed.\<close>

definition Trim :: "string \<Rightarrow> string \<Rightarrow> string" where
  "Trim s cutset =
     rev (dropWhile (\<lambda>c. c \<in> set cutset) (rev (dropWhile (\<lambda>c. c \<in> set cutset) s)))"

subsection \<open>Type converters and the registry\<close>

text \<open>
  The interface \<^verbatim>\<open>TypeConverter\<close> has two implementations, \<^verbatim>\<open>BasicTypeConverter\<close> (with
  its two fields) and \<^verbatim>\<open>ErrorTypeConverter\<close>.
\<close>

datatype TypeConverter = BasicTypeConverter string string | ErrorTypeConverter

fun ConvName :: "TypeConverter \<Rightarrow> string" where
  "ConvName (BasicTypeConverter goName enkFunc) = goName"
| "ConvName ErrorTypeConverter = ''error''"

fun EnkodoFunction :: "TypeConverter \<Rightarrow> string" where
  "EnkodoFunction (BasicTypeConverter goName enkFunc) = enkFunc"
| "EnkodoFunction ErrorTypeConverter = ''String''"

fun Enc :: "TypeConverter \<Rightarrow> string \<Rightarrow> string" where
  "Enc (BasicTypeConverter goName enkFunc) val = val"
| "Enc ErrorTypeConverter val = val @ ''.Error()''"

fun Dec :: "TypeConverter \<Rightarrow> string \<Rightarrow> string" where
  "Dec (BasicTypeConverter goName enkFunc) val = ''''"
| "Dec ErrorTypeConverter val = ''errors.New('' @ val @ '')''"

fun Imports :: "TypeConverter \<Rightarrow> string list" where
  "Imports (BasicTypeConverter goName enkFunc) = []"
| "Imports ErrorTypeConverter = [''errors'']"

definition NewBasicTypeConverter :: "string \<Rightarrow> string \<Rightarrow> TypeConverter" where
  "NewBasicTypeConverter gotype enkodoFunction = BasicTypeConverter gotype enkodoFunction"

definition enc_types_advanced :: "string \<rightharpoonup> TypeConverter" where
  "enc_types_advanced = map_of
     [(''uint'', NewBasicTypeConverter ''uint'' ''Uint''),
      (''uint8'', NewBasicTypeConverter ''uint8'' ''Uint8''),
      (''uint16'', NewBasicTypeConverter ''uint16'' ''Uint16''),
      (''uint32'', NewBasicTypeConverter ''uint32'' ''Uint32''),
      (''uint64'', NewBasicTypeConverter ''uint64'' ''Uint64''),
      (''int'', NewBasicTypeConverter ''int'' ''Int''),
      (''int8'', NewBasicTypeConverter ''int8'' ''Int8''),
      (''int16'', NewBasicTypeConverter ''int16'' ''Int16''),
      (''int32'', NewBasicTypeConverter ''int32'' ''Int32''),
      (''int64'', NewBasicTypeConverter ''int64'' ''Int64''),
      (''float32'', NewBasicTypeConverter ''float32'' ''Float32''),
      (''float64'', NewBasicTypeConverter ''float64'' ''Float64''),
      (''string'', NewBasicTypeConverter ''string'' ''String''),
      (''bool'', NewBasicTypeConverter ''bool'' ''Bool''),
      (''[]byte'', NewBasicTypeConverter ''[]byte'' ''Bytes''),
      (''error'', ErrorTypeConverter)]"

subsection \<open>Fields and structs\<close>

record Field =
  Name :: string
  Type :: string
  OverrideType :: string

text \<open>
  \<open>declared\<close> is the map \<^verbatim>\<open>_declared\<close>; \<open>None\<close> is Go's nil map, which can be read but
  not written. (\<^verbatim>\<open>_hasLoopVar\<close> is never used by the source.)
\<close>

record Struct =
  StructName :: string
  Fields :: "Field list"
  declared :: "(string \<rightharpoonup> string) option"

subsection \<open>EncodeField\<close>

function EncodeField :: "nat \<Rightarrow> Field \<Rightarrow> panic + string list" where
  "EncodeField identCount field =
     (let dent = Repeat ident identCount;
          name = (if OverrideType field \<noteq> ''''
                  then OverrideType field @ ''('' @ Name field @ '')'' else Name field);
          typ = (if OverrideType field \<noteq> '''' then OverrideType field else Type field)
      in
      if typ = '''' \<or> (hd typ = CHR ''['' \<and> length typ = 2) then
        Inr [dent @ ''// Do not know what to do with '' @ Name field @ '' ('' @ typ @ '')'']
      else
        case enc_types_advanced typ of
          Some conv \<Rightarrow>
            Inr [dent @ ''enc.'' @ EnkodoFunction conv @ ''('' @ Enc conv name @ '')'']
        | None \<Rightarrow>
            if hd typ = CHR ''*'' then
              Inr [dent @ ''enc.Encode('' @ name @ '')'']
            else if hd typ = CHR ''['' then
              (if length typ < 2 then Inl SliceBoundsOutOfRange
               else
                 case EncodeField (identCount + 1)
                        \<lparr>Name = ''v'', Type = drop 2 typ, OverrideType = ''''\<rparr> of
                   Inl e \<Rightarrow> Inl e
                 | Inr body \<Rightarrow>
                     Inr ([dent @ ''enc.Int(len('' @ name @ ''))'',
                           dent @ ''for _, v := range '' @ name @ '' {''] @ body @
                          [dent @ ''}'']))
            else
              Inr [dent @ ''// Do not know what to do with '' @ Name field @ '' ('' @ typ
                   @ '')''])"
  by pat_completeness auto
termination
  by (relation "measure (\<lambda>(n, f).
        length (if OverrideType f \<noteq> '''' then OverrideType f else Type f))") auto

declare EncodeField.simps [simp del]

subsection \<open>DecodeField\<close>

text \<open>
  \<^verbatim>\<open>initType\<close> reads \<^verbatim>\<open>typ[0]\<close>, which panics on the empty string. The name of the
  temporary is the constant \<^verbatim>\<open>"t"\<close> (the line deriving it from the type is commented out
  in the source).
\<close>

definition initType :: "string \<Rightarrow> panic + (string \<times> string)" where
  "initType typ =
     (let clean_typ = Trim typ ''[]'';
          name = ''t''
      in
      if typ = [] then Inl IndexOutOfRange
      else if hd typ = CHR ''*'' then Inr (''var '' @ name @ '' = new('' @ clean_typ @ '')'', name)
      else Inr (''var '' @ name @ '' '' @ clean_typ, name))"

text \<open>
  \<^verbatim>\<open>DecodeField\<close> is a method of the struct and uses no part of it but \<^verbatim>\<open>_declared\<close>,
  which it reads and writes: the map is passed in and returned. The error result of the
  source is always nil and is left out.
\<close>

function DecodeField ::
  "(string \<rightharpoonup> string) option \<Rightarrow> nat \<Rightarrow> Field
     \<Rightarrow> panic + ((string \<rightharpoonup> string) option \<times> string list)" where
  "DecodeField decl identCount field =
     (let dent = Repeat ident identCount;
          name = Name field
      in
      if Type field = '''' \<or> (hd (Type field) = CHR ''['' \<and> length (Type field) = 2) then
        Inr (decl, [dent @ ''// Do not know what to do with '' @ Name field @ '' (''
                    @ Type field @ '')''])
      else if Type field = ''[]byte'' then
        Inr (decl, [dent @ name @ '' = make([]byte, 0)'',
                    dent @ ''if err = dec.Bytes(&'' @ name @ ''); err != nil {'',
                    dent @ ident @ ''return'',
                    dent @ ''}''])
      else
        let typ = (if OverrideType field \<noteq> '''' then OverrideType field else Type field) in
        case enc_types_advanced typ of
          Some conv \<Rightarrow>
            (let d0 = Dec conv ''v'';
                 d = (if OverrideType field \<noteq> ''''
                      then Type field @ ''('' @ (if d0 = '''' then ''v'' else d0) @ '')''
                      else d0)
             in
             if d \<noteq> '''' then
               Inr (decl, [dent @ ''if v, err := dec.'' @ EnkodoFunction conv
                             @ ''(); err == nil {'',
                           dent @ ident @ Name field @ '' = '' @ d,
                           dent @ ''} else {'',
                           dent @ ident @ ''return err'',
                           dent @ ''}''])
             else
               Inr (decl, [dent @ ''if '' @ Name field @ '', err = dec.'' @ EnkodoFunction conv
                             @ ''(); err != nil {'',
                           dent @ ident @ ''return err'',
                           dent @ ''}'']))
        | None \<Rightarrow>
            if hd (Type field) = CHR ''*'' then
              Inr (decl, [dent @ name @ '' = new('' @ Trim (Type field) ''*'' @ '')'',
                          dent @ ''if err = dec.Decode('' @ name @ ''); err != nil {'',
                          dent @ ident @ ''return'',
                          dent @ ''}''])
            else if hd (Type field) = CHR ''['' then
              (case (case decl of
                       None \<Rightarrow> Inl NilMapAssignment
                     | Some m \<Rightarrow>
                         (case m ''_arrLen'' of
                            None \<Rightarrow> Inr (Some (m(''_arrLen'' \<mapsto> ''int'')),
                                          [dent @ ''var _arrLen int''])
                          | Some x \<Rightarrow> Inr (decl, []))) of
                 Inl e \<Rightarrow> Inl e
               | Inr (decl1, declLines) \<Rightarrow>
                   (case initType (Type field) of
                      Inl e \<Rightarrow> Inl e
                    | Inr (init, temp) \<Rightarrow>
                        (case DecodeField decl1 identCount
                                \<lparr>Name = ''_arrLen'', Type = ''int'', OverrideType = ''''\<rparr> of
                           Inl e \<Rightarrow> Inl e
                         | Inr (decl2, lenLines) \<Rightarrow>
                             if length (Type field) < 2 then Inl SliceBoundsOutOfRange
                             else
                               (case DecodeField decl2 (identCount + 1)
                                       \<lparr>Name = temp, Type = drop 2 (Type field),
                                        OverrideType = ''''\<rparr> of
                                  Inl e \<Rightarrow> Inl e
                                | Inr (decl3, body) \<Rightarrow>
                                    Inr (decl3,
                                         declLines @ lenLines @
                                         [dent @ name @ '' = make('' @ Type field
                                            @ '', 0, _arrLen)'',
                                          dent @ ''for i := 0; i < _arrLen; i++ {'',
                                          dent @ ident @ init] @
                                         body @
                                         [dent @ ident @ name @ '' = append('' @ name @ '', ''
                                            @ temp @ '')'',
                                          dent @ ''}''])))))
            else Inr (decl, []))"
  by pat_completeness auto
termination
  by (relation "measure (\<lambda>(d, n, f). if Type f = ''int'' then 0 else Suc (length (Type f)))")
     auto

declare DecodeField.simps [simp del]

subsection \<open>EncodeFunc and DecodeFunc\<close>

text \<open>
  \<^verbatim>\<open>strings.ToLower\<close> is only applied to the one-byte string \<^verbatim>\<open>s.Name[0:1]\<close>. An ASCII
  byte is lowered; any other single byte is invalid UTF-8, which Go replaces by U+FFFD (three
  bytes).
\<close>

definition ToLowerByte :: "char \<Rightarrow> string" where
  "ToLowerByte c =
     (if 128 \<le> (of_char c :: nat) then [CHR 0xEF, CHR 0xBF, CHR 0xBD]
      else
        case map_of (zip ''ABCDEFGHIJKLMNOPQRSTUVWXYZ'' ''abcdefghijklmnopqrstuvwxyz'') c of
          Some l \<Rightarrow> [l]
        | None \<Rightarrow> [c])"

text \<open>The two loops over \<^verbatim>\<open>s.Fields\<close>.\<close>

fun EncodeFields :: "string \<Rightarrow> Field list \<Rightarrow> panic + string list" where
  "EncodeFields fnRef [] = Inr []"
| "EncodeFields fnRef (field # rest) =
     (case EncodeField 1 (field\<lparr>Name := fnRef @ ''.'' @ Name field\<rparr>) of
        Inl e \<Rightarrow> Inl e
      | Inr ls \<Rightarrow>
          (case EncodeFields fnRef rest of
             Inl e \<Rightarrow> Inl e
           | Inr ls' \<Rightarrow> Inr (ls @ ls')))"

fun DecodeFields ::
  "(string \<rightharpoonup> string) option \<Rightarrow> string \<Rightarrow> Field list
     \<Rightarrow> panic + ((string \<rightharpoonup> string) option \<times> string list)" where
  "DecodeFields decl fnRef [] = Inr (decl, [])"
| "DecodeFields decl fnRef (field # rest) =
     (case DecodeField decl 1 (field\<lparr>Name := fnRef @ ''.'' @ Name field\<rparr>) of
        Inl e \<Rightarrow> Inl e
      | Inr (decl', ls) \<Rightarrow>
          (case DecodeFields decl' fnRef rest of
             Inl e \<Rightarrow> Inl e
           | Inr (decl'', ls') \<Rightarrow> Inr (decl'', ls @ ls')))"

definition EncodeFunc :: "Struct \<Rightarrow> panic + (Struct \<times> string list)" where
  "EncodeFunc s =
     (let s' = s\<lparr>declared := Some Map.empty\<rparr> in
      case StructName s of
        [] \<Rightarrow> Inl SliceBoundsOutOfRange
      | c # _ \<Rightarrow>
          (let fnRef = ToLowerByte c in
           case EncodeFields fnRef (Fields s) of
             Inl e \<Rightarrow> Inl e
           | Inr body \<Rightarrow>
               Inr (s',
                    [''func ('' @ fnRef @ '' *'' @ StructName s
                       @ '') MarshalEnkodo(enc *enkodo.Encoder) (err error) {''] @
                    body @
                    [ident @ ''return'', ''}'', ''''])))"

definition DecodeFunc :: "Struct \<Rightarrow> panic + (Struct \<times> string list)" where
  "DecodeFunc s =
     (case StructName s of
        [] \<Rightarrow> Inl SliceBoundsOutOfRange
      | c # _ \<Rightarrow>
          (let fnRef = ToLowerByte c in
           case DecodeFields (declared s) fnRef (Fields s) of
             Inl e \<Rightarrow> Inl e
           | Inr (decl, body) \<Rightarrow>
               Inr (s\<lparr>declared := decl\<rparr>,
                    [''func ('' @ fnRef @ '' *'' @ StructName s
                       @ '') UnmarshalEnkodo(dec *enkodo.Decoder) (err error) {''] @
                    body @
                    [ident @ ''return'', ''}'', ''''])))"

subsection \<open>Reading the declarations: GetFieldType and GetStructFields\<close>

text \<open>
  The part of \<^verbatim>\<open>go/ast\<close> that the generator inspects. \<^verbatim>\<open>ast.ArrayType\<close> keeps only its
  element type (the length is never read), \<^verbatim>\<open>ast.SelectorExpr\<close> its operand and the selected
  name; every other kind of type expression (maps, functions, channels, interfaces, inline
  structs, ...) is \<open>OtherExpr\<close>.
\<close>

datatype Expr =
    Ident string
  | StarExpr Expr
  | ArrayType Expr
  | SelectorExpr Expr string
  | OtherExpr

fun GetFieldType :: "Expr \<Rightarrow> string" where
  "GetFieldType (Ident n) = n"
| "GetFieldType (StarExpr x) = (case x of Ident v \<Rightarrow> ''*'' @ v | _ \<Rightarrow> [])"
| "GetFieldType (ArrayType elt) = ''[]'' @ GetFieldType elt"
| "GetFieldType (SelectorExpr x sel) = sel"
| "GetFieldType OtherExpr = []"

text \<open>
  \<^verbatim>\<open>ast.Field\<close>: the declared names (none for an embedded field, several for
  \<^verbatim>\<open>A, B int\<close>), the type and the tag literal, if any.
\<close>

record AstField =
  Names :: "string list"
  FieldType :: Expr
  Tag :: "string option"

datatype TypeExpr = StructType "AstField list" | OtherType

datatype Decl = TypeSpec string TypeExpr | OtherDecl

text \<open>\<^verbatim>\<open>ast.Object\<close>, of which only \<^verbatim>\<open>Decl\<close> is read; \<open>None\<close> is nil.\<close>

type_synonym Object = "Decl option"

definition HasPrefix :: "string \<Rightarrow> string \<Rightarrow> bool" where
  "HasPrefix s p = (take (length p) s = p)"

fun Contains :: "string \<Rightarrow> string \<Rightarrow> bool" where
  "Contains [] substr = (substr = [])"
| "Contains (c # cs) substr = (HasPrefix (c # cs) substr \<or> Contains cs substr)"

text \<open>The class \<^verbatim>\<open>\w\<close> of Go's regular expressions: ASCII letters, digits and underscore.\<close>

definition isWordChar :: "char \<Rightarrow> bool" where
  "isWordChar c =
     (c \<in> set ''0123456789ABCDEFGHIJKLMNOPQRSTUVWXYZ_abcdefghijklmnopqrstuvwxyz'')"

text \<open>
  \<^verbatim>\<open>tag.FindStringSubmatch\<close> for the pattern \<^verbatim>\<open>enkodo:"(\w+)"\<close>: the leftmost match and
  its group, or nothing. At a given start the literal prefix must be followed by a non-empty
  run of word characters and a double quote; the run has to be the longest one, since a word
  character is not a double quote.
\<close>

fun tag_FindStringSubmatch :: "string \<Rightarrow> string list" where
  "tag_FindStringSubmatch [] = []"
| "tag_FindStringSubmatch (c # cs) =
     (let s = c # cs;
          lit = ''enkodo:'' @ [CHR 0x22];
          w = takeWhile isWordChar (drop (length lit) s);
          r = dropWhile isWordChar (drop (length lit) s)
      in
      if HasPrefix s lit \<and> w \<noteq> [] \<and> r \<noteq> [] \<and> hd r = CHR 0x22
      then [lit @ w @ [CHR 0x22], w]
      else tag_FindStringSubmatch cs)"

text \<open>
  \<^verbatim>\<open>unicode.IsUpper(rune(b))\<close> for a byte \<open>b\<close>: the conversion gives a Latin-1 code point,
  whose upper-case letters are A-Z, U+00C0-U+00D6 and U+00D8-U+00DE.
\<close>

definition IsUpper :: "char \<Rightarrow> bool" where
  "IsUpper c =
     (let n = (of_char c :: nat) in
      (65 \<le> n \<and> n \<le> 90) \<or> (192 \<le> n \<and> n \<le> 214) \<or> (216 \<le> n \<and> n \<le> 222))"

text \<open>
  One iteration of the loop of \<^verbatim>\<open>GetStructFields\<close>: \<open>Inl\<close> is a panic, \<open>Inr None\<close> is
  \<^verbatim>\<open>continue\<close>, \<open>Inr (Some f)\<close> appends \<open>f\<close> to \<^verbatim>\<open>s.Fields\<close>. The first name is read
  before anything else is looked at.
\<close>

definition StructField :: "AstField \<Rightarrow> panic + Field option" where
  "StructField field =
     (case Names field of
        [] \<Rightarrow> Inl IndexOutOfRange
      | n # _ \<Rightarrow>
          (let f = \<lparr>Name = n, Type = GetFieldType (FieldType field), OverrideType = []\<rparr> in
           case Tag field of
             None \<Rightarrow> Inr None
           | Some tagValue \<Rightarrow>
               if \<not> Contains tagValue ''enkodo'' then Inr None
               else
                 (let match = tag_FindStringSubmatch tagValue;
                      f' = (if length match > 1 \<and> length (match ! 1) > 1
                            then f\<lparr>OverrideType := match ! 1\<rparr> else f)
                  in
                  case Name f' of
                    [] \<Rightarrow> Inl IndexOutOfRange
                  | c # _ \<Rightarrow>
                      if \<not> IsUpper c \<or> (Type f' = [] \<and> OverrideType f' = [])
                      then Inr None
                      else Inr (Some f'))))"

fun StructFields :: "AstField list \<Rightarrow> panic + Field list" where
  "StructFields [] = Inr []"
| "StructFields (field # rest) =
     (case StructField field of
        Inl e \<Rightarrow> Inl e
      | Inr r \<Rightarrow>
          (case StructFields rest of
             Inl e \<Rightarrow> Inl e
           | Inr fs \<Rightarrow> Inr (case r of None \<Rightarrow> fs | Some f \<Rightarrow> f # fs)))"

text \<open>\<open>Inr None\<close> is the nil result.\<close>

definition GetStructFields :: "Object \<Rightarrow> panic + Struct option" where
  "GetStructFields obj =
     (case obj of
        None \<Rightarrow> Inr None
      | Some OtherDecl \<Rightarrow> Inr None
      | Some (TypeSpec tsName OtherType) \<Rightarrow> Inr None
      | Some (TypeSpec tsName (StructType fieldList)) \<Rightarrow>
          (case StructFields fieldList of
             Inl e \<Rightarrow> Inl e
           | Inr fs \<Rightarrow>
               if length fs > 0
               then Inr (Some \<lparr>StructName = tsName, Fields = fs, declared = None\<rparr>)
               else Inr None))"

subsection \<open>objectsInFile\<close>

text \<open>
  What \<^verbatim>\<open>objectsInFile\<close> writes for one parsed file. The output goes to a file or to
  standard output; here it is the value \<open>Artifact\<close>: the lines before the imports, the set of
  imported packages (the source keeps it as the key set of a map and writes one
  \<^verbatim>\<open>import\<close> line per key, in Go's unspecified map order), and the lines after them.
  \<open>Inr None\<close> is the early return that opens no output at all. Parsing the file and
  creating the output file are done by the Go library and are not modelled; the objects are
  taken in the order in which the source's loop over \<^verbatim>\<open>fil.Scope.Objects\<close> meets them.
\<close>

definition packageName :: string where
  "packageName = ''github.com/nullmonk/enkodo''"

record Artifact =
  Header :: "string list"
  ImportSet :: "string set"
  Code :: "string list"

text \<open>The first loop: the structs that \<^verbatim>\<open>GetStructFields\<close> returns.\<close>

fun collectStructs :: "Object list \<Rightarrow> panic + Struct list" where
  "collectStructs [] = Inr []"
| "collectStructs (obj # rest) =
     (if obj = None then collectStructs rest
      else
        case GetStructFields obj of
          Inl e \<Rightarrow> Inl e
        | Inr r \<Rightarrow>
            (case collectStructs rest of
               Inl e \<Rightarrow> Inl e
             | Inr structs \<Rightarrow> Inr (case r of None \<Rightarrow> structs | Some s \<Rightarrow> s # structs)))"

text \<open>The second loop: the imports of the converters of the fields' types.\<close>

definition fieldImports :: "Field \<Rightarrow> string set" where
  "fieldImports field =
     (let ty = (if OverrideType field \<noteq> [] then OverrideType field else Type field) in
      case enc_types_advanced ty of
        Some conv \<Rightarrow> set (Imports conv)
      | None \<Rightarrow> {})"

definition collectImports :: "Struct list \<Rightarrow> string set" where
  "collectImports structs =
     {packageName} \<union> (\<Union>struc \<in> set structs. \<Union>field \<in> set (Fields struc). fieldImports field)"

text \<open>
  The third loop: \<^verbatim>\<open>EncodeFunc\<close>, then \<^verbatim>\<open>DecodeFunc\<close> on the same struct, whose
  \<^verbatim>\<open>_declared\<close> the first call has just set.
\<close>

fun writeStructs :: "Struct list \<Rightarrow> panic + string list" where
  "writeStructs [] = Inr []"
| "writeStructs (st # rest) =
     (case EncodeFunc st of
        Inl e \<Rightarrow> Inl e
      | Inr (st', encLines) \<Rightarrow>
          (case DecodeFunc st' of
             Inl e \<Rightarrow> Inl e
           | Inr (st'', decLines) \<Rightarrow>
               (case writeStructs rest of
                  Inl e \<Rightarrow> Inl e
                | Inr ls \<Rightarrow> Inr (encLines @ decLines @ ls))))"

definition objectsInFile :: "string \<Rightarrow> Object list \<Rightarrow> panic + Artifact option" where
  "objectsInFile pkg objects =
     (case collectStructs objects of
        Inl e \<Rightarrow> Inl e
      | Inr structs \<Rightarrow>
          if length structs = 0 then Inr None
          else
            (case writeStructs structs of
               Inl e \<Rightarrow> Inl e
             | Inr ls \<Rightarrow>
                 Inr (Some \<lparr>Header = [''/* This file is auto-generated by enkodo */'',
                                       ''package '' @ pkg, []],
                            ImportSet = collectImports structs,
                            Code = [] # ls\<rparr>)))"

text \<open>
  A declaration from which \<^verbatim>\<open>GetStructFields\<close> can take no field: it is no struct type, or
  every iteration of the loop over its fields ends in \<^verbatim>\<open>continue\<close>.
\<close>

definition keepsNoField :: "Object \<Rightarrow> bool" where
  "keepsNoField obj =
     (case obj of
        Some (TypeSpec tsName (StructType fieldList)) \<Rightarrow>
          list_all (\<lambda>fd. StructField fd = Inr None) fieldList
      | _ \<Rightarrow> True)"

subsection \<open>Reading the generated text\<close>

text \<open>
  The generator has no data structure for the code it writes, only the text. The properties
  below therefore classify generated lines by what they say. A line is read after its
  indentation: \<open>depth\<close> counts the leading tabs, \<open>stripTabs\<close> removes them, \<open>keyword\<close> is the
  first word of what is left.
\<close>

definition stripTabs :: "string \<Rightarrow> string" where
  "stripTabs l = dropWhile (\<lambda>c. c = CHR 0x09) l"

definition depth :: "string \<Rightarrow> nat" where
  "depth l = length (takeWhile (\<lambda>c. c = CHR 0x09) l)"

definition keyword :: "string \<Rightarrow> string" where
  "keyword l = takeWhile (\<lambda>c. c \<noteq> CHR '' '') (stripTabs l)"

text \<open>The declaration of the shared length variable.\<close>

definition isArrLenDecl :: "string \<Rightarrow> bool" where
  "isArrLenDecl l = (stripTabs l = ''var _arrLen int'')"

text \<open>A declaration of the temporary \<^verbatim>\<open>t\<close>, of any type, and one of type \<open>T\<close>.\<close>

definition isTempDecl :: "string \<Rightarrow> bool" where
  "isTempDecl l = (take 6 (stripTabs l) = ''var t '')"

definition isTempDeclOf :: "string \<Rightarrow> string \<Rightarrow> bool" where
  "isTempDeclOf T l = (stripTabs l = ''var t '' @ T)"

text \<open>The head of a decode loop.\<close>

definition isLoopHead :: "string \<Rightarrow> bool" where
  "isLoopHead l = (stripTabs l = ''for i := 0; i < _arrLen; i++ {'')"

definition arrLenDecls :: "string list \<Rightarrow> nat" where
  "arrLenDecls ls = length (filter isArrLenDecl ls)"

definition tempDecls :: "string list \<Rightarrow> nat" where
  "tempDecls ls = length (filter isTempDecl ls)"

definition tempDeclsOf :: "string \<Rightarrow> string list \<Rightarrow> nat" where
  "tempDeclsOf T ls = length (filter (isTempDeclOf T) ls)"

definition loopHeads :: "string list \<Rightarrow> nat" where
  "loopHeads ls = length (filter isLoopHead ls)"

text \<open>
  The fields for which \<^verbatim>\<open>DecodeField\<close> reaches its last branch, the one for lists: the
  declared type starts with a bracket and is neither two bytes long nor \<^verbatim>\<open>[]byte\<close>, and the
  effective type is not in the registry.
\<close>

definition decodesAsList :: "Field \<Rightarrow> bool" where
  "decodesAsList f =
     (Type f \<noteq> [] \<and> hd (Type f) = CHR ''['' \<and> length (Type f) \<noteq> 2 \<and> Type f \<noteq> ''[]byte'' \<and>
      enc_types_advanced (if OverrideType f \<noteq> [] then OverrideType f else Type f) = None)"

text \<open>
  A name that does not read as the keyword \<^verbatim>\<open>var\<close> or \<^verbatim>\<open>for\<close> when a line starts with it.
  The names that \<^verbatim>\<open>DecodeFunc\<close> passes on have the form \<^verbatim>\<open>x.Field\<close> and are of this kind,
  as is the temporary \<^verbatim>\<open>t\<close>.
\<close>

definition plainName :: "string \<Rightarrow> bool" where
  "plainName nm = (keyword nm \<noteq> ''var'' \<and> keyword nm \<noteq> ''for'')"

text \<open>Whether \<^verbatim>\<open>_arrLen\<close> is a key of the map \<^verbatim>\<open>_declared\<close>, as a number.\<close>

definition arrLenDeclared :: "(string \<rightharpoonup> string) \<Rightarrow> nat" where
  "arrLenDeclared m = (if m ''_arrLen'' = None then 0 else 1)"

text \<open>
  \<open>loopTemps ls\<close>: in the lines \<open>ls\<close>, every loop head is directly followed by a declaration
  of the temporary, indented one level deeper (the first statement of the loop's block),
  and the temporary is declared nowhere else.
\<close>

fun loopTemps :: "string list \<Rightarrow> bool" where
  "loopTemps [] = True"
| "loopTemps [l] = (\<not> isLoopHead l \<and> \<not> isTempDecl l)"
| "loopTemps (h # d # rest) =
     (if isLoopHead h then isTempDecl d \<and> depth d = Suc (depth h) \<and> loopTemps rest
      else \<not> isTempDecl h \<and> loopTemps (d # rest))"

text \<open>
  The lines of the decode method of one struct as \<^verbatim>\<open>objectsInFile\<close> produces them:
  \<^verbatim>\<open>EncodeFunc\<close> runs first, then \<^verbatim>\<open>DecodeFunc\<close> on the struct that \<^verbatim>\<open>EncodeFunc\<close> has
  updated. There are none if a call panics.
\<close>

definition decodeLines :: "Struct \<Rightarrow> string list" where
  "decodeLines s =
     (case EncodeFunc s of
        Inl e \<Rightarrow> []
      | Inr (s', ls) \<Rightarrow> (case DecodeFunc s' of Inl e \<Rightarrow> [] | Inr (s'', ls') \<Rightarrow> ls'))"

section \<open>Properties\<close>

subsection \<open>Unfolding the definitions on concrete inputs\<close>

lemmas registry_defs = enc_types_advanced_def NewBasicTypeConverter_def

lemmas generator_defs =
  EncodeField.simps DecodeField.simps registry_defs Repeat_def ident_def initType_def Trim_def
  EncodeFunc_def DecodeFunc_def ToLowerByte_def eval_nat_numeral Let_def

lemmas reader_defs =
  GetStructFields_def StructField_def HasPrefix_def isWordChar_def IsUpper_def

lemmas file_defs =
  objectsInFile_def collectImports_def fieldImports_def packageName_def

lemma registry_bytes [simp]:
  "enc_types_advanced ''[]byte'' = Some (BasicTypeConverter ''[]byte'' ''Bytes'')"
  by (simp add: registry_defs)

subsection \<open>Raw byte blocks\<close>

text \<open>
  Claim C6. A field of type \<^verbatim>\<open>[]byte\<close> (without an override) is encoded by exactly one
  call of the byte-block operation \<^verbatim>\<open>enc.Bytes\<close>, with no length prefix and no loop, and
  decoded by exactly one call of \<^verbatim>\<open>dec.Bytes\<close> into the field, which is first set to an
  empty block; the map of declared variables is left as it was. This holds at every
  indentation and for every state of that map.
\<close>

theorem bytes_field_one_call:
  assumes "Type f = ''[]byte''" and "OverrideType f = []"
  shows "EncodeField n f = Inr [Repeat ident n @ ''enc.Bytes('' @ Name f @ '')''] \<and>
         DecodeField decl n f =
           Inr (decl, [Repeat ident n @ Name f @ '' = make([]byte, 0)'',
                       Repeat ident n @ ''if err = dec.Bytes(&'' @ Name f @ ''); err != nil {'',
                       Repeat ident n @ ident @ ''return'',
                       Repeat ident n @ ''}''])"
  using assms by (simp add: EncodeField.simps DecodeField.simps Let_def)

theorem bytes_field_one_call_witness:
  "EncodeField 1 \<lparr>Name = ''p.Data'', Type = ''[]byte'', OverrideType = []\<rparr> =
     Inr [[CHR 0x09] @ ''enc.Bytes(p.Data)''] \<and>
   DecodeField (Some Map.empty) 1 \<lparr>Name = ''p.Data'', Type = ''[]byte'', OverrideType = []\<rparr> =
     Inr (Some Map.empty,
          [[CHR 0x09] @ ''p.Data = make([]byte, 0)'',
           [CHR 0x09] @ ''if err = dec.Bytes(&p.Data); err != nil {'',
           [CHR 0x09, CHR 0x09] @ ''return'',
           [CHR 0x09] @ ''}''])"
  using bytes_field_one_call [of "\<lparr>Name = ''p.Data'', Type = ''[]byte'', OverrideType = []\<rparr>" 1
      "Some Map.empty"]
  by (simp add: Repeat_def ident_def)

subsection \<open>Where decode does not mirror encode\<close>

text \<open>
  Claim C2 (the code differs). The file
  \<^verbatim>\<open>package main; type Rec struct { Meta map[string]string `enkodo:"string"` }\<close>
  has one struct with one eligible field: its declared type is not one \<^verbatim>\<open>GetFieldType\<close>
  knows (the empty type string) and it carries the override \<^verbatim>\<open>string\<close>. \<^verbatim>\<open>EncodeField\<close>
  replaces the type by the override before it tests for an unknown type and writes a
  \<^verbatim>\<open>enc.String\<close> call; \<^verbatim>\<open>DecodeField\<close> tests the declared type first and writes only a
  comment. The generated \<^verbatim>\<open>MarshalEnkodo\<close> writes a value that the generated
  \<^verbatim>\<open>UnmarshalEnkodo\<close> never reads.
\<close>

theorem override_of_unknown_type_encoded_not_decoded:
  "objectsInFile ''main''
     [Some (TypeSpec ''Rec'' (StructType
        [\<lparr>Names = [''Meta''], FieldType = OtherExpr,
          Tag = Some (''`enkodo:'' @ [CHR 0x22] @ ''string'' @ [CHR 0x22] @ ''`'')\<rparr>]))] =
   Inr (Some
     \<lparr>Header = [''/* This file is auto-generated by enkodo */'', ''package main'', []],
      ImportSet = {''github.com/nullmonk/enkodo''},
      Code =
        [[],
         ''func (r *Rec) MarshalEnkodo(enc *enkodo.Encoder) (err error) {'',
         [CHR 0x09] @ ''enc.String(string(r.Meta))'',
         [CHR 0x09] @ ''return'',
         ''}'',
         [],
         ''func (r *Rec) UnmarshalEnkodo(dec *enkodo.Decoder) (err error) {'',
         [CHR 0x09] @ ''// Do not know what to do with r.Meta ()'',
         [CHR 0x09] @ ''return'',
         ''}'',
         []]\<rparr>)"
  by (simp add: generator_defs reader_defs file_defs)

subsection \<open>Nested lists\<close>

text \<open>
  Claim C3 (the code differs). For a field \<^verbatim>\<open>M [][]int64\<close>, referenced as \<^verbatim>\<open>p.M\<close>,
  the encode side nests two length prefixes and two loops. The decode side reads the inner
  length into the same variable \<^verbatim>\<open>_arrLen\<close> that bounds the outer loop, inside that loop;
  it declares the outer temporary \<^verbatim>\<open>t\<close> with the innermost type \<^verbatim>\<open>int64\<close> (all brackets
  are trimmed) and then assigns it a \<^verbatim>\<open>[]int64\<close>; and the inner loop declares a second
  \<^verbatim>\<open>t\<close> that hides the outer one, so that its last line appends \<^verbatim>\<open>t\<close> to itself.
\<close>

theorem nested_list_decode_reuses_length_and_temporary:
  "EncodeField 1 \<lparr>Name = ''p.M'', Type = ''[][]int64'', OverrideType = []\<rparr> =
     Inr [Repeat ident 1 @ ''enc.Int(len(p.M))'',
          Repeat ident 1 @ ''for _, v := range p.M {'',
          Repeat ident 2 @ ''enc.Int(len(v))'',
          Repeat ident 2 @ ''for _, v := range v {'',
          Repeat ident 3 @ ''enc.Int64(v)'',
          Repeat ident 2 @ ''}'',
          Repeat ident 1 @ ''}''] \<and>
   DecodeField (Some Map.empty) 1 \<lparr>Name = ''p.M'', Type = ''[][]int64'', OverrideType = []\<rparr> =
     Inr (Some [''_arrLen'' \<mapsto> ''int''],
          [Repeat ident 1 @ ''var _arrLen int'',
           Repeat ident 1 @ ''if _arrLen, err = dec.Int(); err != nil {'',
           Repeat ident 2 @ ''return err'',
           Repeat ident 1 @ ''}'',
           Repeat ident 1 @ ''p.M = make([][]int64, 0, _arrLen)'',
           Repeat ident 1 @ ''for i := 0; i < _arrLen; i++ {'',
           Repeat ident 2 @ ''var t int64'',
           Repeat ident 2 @ ''if _arrLen, err = dec.Int(); err != nil {'',
           Repeat ident 3 @ ''return err'',
           Repeat ident 2 @ ''}'',
           Repeat ident 2 @ ''t = make([]int64, 0, _arrLen)'',
           Repeat ident 2 @ ''for i := 0; i < _arrLen; i++ {'',
           Repeat ident 3 @ ''var t int64'',
           Repeat ident 3 @ ''if t, err = dec.Int64(); err != nil {'',
           Repeat ident 4 @ ''return err'',
           Repeat ident 3 @ ''}'',
           Repeat ident 3 @ ''t = append(t, t)'',
           Repeat ident 2 @ ''}'',
           Repeat ident 2 @ ''p.M = append(p.M, t)'',
           Repeat ident 1 @ ''}''])"
  by (simp add: generator_defs)

subsection \<open>Overrides\<close>

text \<open>
  Claim C7 (the code differs). The declaration
  \<^verbatim>\<open>type Blob struct { Data []byte `enkodo:"string"` }\<close> gives a field of declared type
  \<^verbatim>\<open>[]byte\<close> with the override \<^verbatim>\<open>string\<close>. Encoding dispatches on the override: the value
  is cast to \<^verbatim>\<open>string\<close> and written by \<^verbatim>\<open>enc.String\<close>. Decoding does not: the test for
  \<^verbatim>\<open>[]byte\<close> comes before the override is looked at, so the field is read by
  \<^verbatim>\<open>dec.Bytes\<close>, the converter of the declared type, and nothing is cast back.
\<close>

theorem override_on_bytes_ignored_by_decode:
  "GetStructFields (Some (TypeSpec ''Blob'' (StructType
      [\<lparr>Names = [''Data''], FieldType = ArrayType (Ident ''byte''),
        Tag = Some (''`enkodo:'' @ [CHR 0x22] @ ''string'' @ [CHR 0x22] @ ''`'')\<rparr>]))) =
     Inr (Some \<lparr>StructName = ''Blob'',
                Fields = [\<lparr>Name = ''Data'', Type = ''[]byte'', OverrideType = ''string''\<rparr>],
                declared = None\<rparr>) \<and>
   EncodeField 1 \<lparr>Name = ''b.Data'', Type = ''[]byte'', OverrideType = ''string''\<rparr> =
     Inr [Repeat ident 1 @ ''enc.String(string(b.Data))''] \<and>
   DecodeField (Some Map.empty) 1
       \<lparr>Name = ''b.Data'', Type = ''[]byte'', OverrideType = ''string''\<rparr> =
     Inr (Some Map.empty,
          [Repeat ident 1 @ ''b.Data = make([]byte, 0)'',
           Repeat ident 1 @ ''if err = dec.Bytes(&b.Data); err != nil {'',
           Repeat ident 2 @ ''return'',
           Repeat ident 1 @ ''}''])"
  by (simp add: generator_defs reader_defs)

subsection \<open>Imports\<close>

text \<open>
  Claim C8 (the code differs). For the file
  \<^verbatim>\<open>package main; type Report struct { Errs []error `enkodo:""` }\<close> the converter of
  \<^verbatim>\<open>error\<close> is used for the elements of the list: the generated code calls
  \<^verbatim>\<open>errors.New\<close>. The import set is computed from the types of the fields themselves,
  here \<^verbatim>\<open>[]error\<close>, which is not in the registry: only the enkodo package is imported.
\<close>

theorem element_converter_import_missing:
  "objectsInFile ''main''
     [Some (TypeSpec ''Report'' (StructType
        [\<lparr>Names = [''Errs''], FieldType = ArrayType (Ident ''error''),
          Tag = Some (''`enkodo:'' @ [CHR 0x22, CHR 0x22] @ ''`'')\<rparr>]))] =
   Inr (Some
     \<lparr>Header = [''/* This file is auto-generated by enkodo */'', ''package main'', []],
      ImportSet = {''github.com/nullmonk/enkodo''},
      Code =
        [[],
         ''func (r *Report) MarshalEnkodo(enc *enkodo.Encoder) (err error) {'',
         Repeat ident 1 @ ''enc.Int(len(r.Errs))'',
         Repeat ident 1 @ ''for _, v := range r.Errs {'',
         Repeat ident 2 @ ''enc.String(v.Error())'',
         Repeat ident 1 @ ''}'',
         Repeat ident 1 @ ''return'',
         ''}'',
         [],
         ''func (r *Report) UnmarshalEnkodo(dec *enkodo.Decoder) (err error) {'',
         Repeat ident 1 @ ''var _arrLen int'',
         Repeat ident 1 @ ''if _arrLen, err = dec.Int(); err != nil {'',
         Repeat ident 2 @ ''return err'',
         Repeat ident 1 @ ''}'',
         Repeat ident 1 @ ''r.Errs = make([]error, 0, _arrLen)'',
         Repeat ident 1 @ ''for i := 0; i < _arrLen; i++ {'',
         Repeat ident 2 @ ''var t error'',
         Repeat ident 2 @ ''if v, err := dec.String(); err == nil {'',
         Repeat ident 3 @ ''t = errors.New(v)'',
         Repeat ident 2 @ ''} else {'',
         Repeat ident 3 @ ''return err'',
         Repeat ident 2 @ ''}'',
         Repeat ident 2 @ ''r.Errs = append(r.Errs, t)'',
         Repeat ident 1 @ ''}'',
         Repeat ident 1 @ ''return'',
         ''}'',
         []]\<rparr>)"
  by (simp add: generator_defs reader_defs file_defs)

subsection \<open>Records without eligible fields\<close>

lemma StructFields_all_skipped:
  "list_all (\<lambda>fd. StructField fd = Inr None) fieldList \<Longrightarrow> StructFields fieldList = Inr []"
  by (induction fieldList) auto

lemma GetStructFields_keepsNoField:
  "keepsNoField obj \<Longrightarrow> GetStructFields obj = Inr None"
  by (auto simp: keepsNoField_def GetStructFields_def StructFields_all_skipped
           split: option.splits Decl.splits TypeExpr.splits)

lemma GetStructFields_has_fields:
  "GetStructFields obj = Inr (Some s) \<Longrightarrow> Fields s \<noteq> []"
  by (auto simp: GetStructFields_def
           split: option.splits Decl.splits TypeExpr.splits sum.splits if_splits)

lemma collectStructs_skip:
  "GetStructFields obj = Inr None \<Longrightarrow>
   collectStructs (before @ obj # after) = collectStructs (before @ after)"
  by (induction before) (auto split: sum.splits option.splits)

lemma collectStructs_all_skipped:
  "list_all (\<lambda>obj. GetStructFields obj = Inr None) objs \<Longrightarrow> collectStructs objs = Inr []"
  by (induction objs) auto

text \<open>
  The mechanism that drops a record: if the loop of \<^verbatim>\<open>GetStructFields\<close> skips every field
  of a struct declaration, \<^verbatim>\<open>GetStructFields\<close> returns nil, and \<^verbatim>\<open>objectsInFile\<close> produces
  for a file that contains the declaration exactly what it produces for the file without
  it. If it skips every field of every declaration of a file, \<^verbatim>\<open>objectsInFile\<close> returns
  before it opens any output.
\<close>

lemma no_code_for_record_without_kept_fields:
  "(list_all (\<lambda>fd. StructField fd = Inr None) fieldList \<longrightarrow>
      GetStructFields (Some (TypeSpec tsName (StructType fieldList))) = Inr None \<and>
      objectsInFile pkg (before @ [Some (TypeSpec tsName (StructType fieldList))] @ after) =
        objectsInFile pkg (before @ after)) \<and>
   (list_all keepsNoField objs \<longrightarrow> objectsInFile pkg objs = Inr None)"
proof (intro conjI impI)
  assume "list_all (\<lambda>fd. StructField fd = Inr None) fieldList"
  then have "keepsNoField (Some (TypeSpec tsName (StructType fieldList)))"
    by (simp add: keepsNoField_def)
  then show nil: "GetStructFields (Some (TypeSpec tsName (StructType fieldList))) = Inr None"
    by (rule GetStructFields_keepsNoField)
  show "objectsInFile pkg (before @ [Some (TypeSpec tsName (StructType fieldList))] @ after) =
        objectsInFile pkg (before @ after)"
    using collectStructs_skip [OF nil, of before after] by (simp add: objectsInFile_def)
next
  assume "list_all keepsNoField objs"
  then have "list_all (\<lambda>obj. GetStructFields obj = Inr None) objs"
    by (induction objs) (auto simp: GetStructFields_keepsNoField)
  then show "objectsInFile pkg objs = Inr None"
    by (simp add: objectsInFile_def collectStructs_all_skipped)
qed

text \<open>
  An example: a struct \<^verbatim>\<open>Hidden\<close> with an unexported tagged field, an untagged field and a
  tagged field of unknown type without override, next to a struct \<^verbatim>\<open>User\<close> with an eligible
  field; and a file of a nil declaration, a function, a named non-struct type and \<^verbatim>\<open>Hidden\<close>.
\<close>

lemma no_code_for_record_without_kept_fields_example:
  "list_all (\<lambda>fd. StructField fd = Inr None)
     [\<lparr>Names = [''id''], FieldType = Ident ''int'',
       Tag = Some (''`enkodo:'' @ [CHR 0x22, CHR 0x22] @ ''`'')\<rparr>,
      \<lparr>Names = [''Note''], FieldType = Ident ''string'', Tag = None\<rparr>,
      \<lparr>Names = [''Cb''], FieldType = OtherExpr,
       Tag = Some (''`enkodo:'' @ [CHR 0x22, CHR 0x22] @ ''`'')\<rparr>] \<and>
   GetStructFields (Some (TypeSpec ''Hidden'' (StructType
     [\<lparr>Names = [''id''], FieldType = Ident ''int'',
       Tag = Some (''`enkodo:'' @ [CHR 0x22, CHR 0x22] @ ''`'')\<rparr>,
      \<lparr>Names = [''Note''], FieldType = Ident ''string'', Tag = None\<rparr>,
      \<lparr>Names = [''Cb''], FieldType = OtherExpr,
       Tag = Some (''`enkodo:'' @ [CHR 0x22, CHR 0x22] @ ''`'')\<rparr>]))) = Inr None \<and>
   objectsInFile ''main''
     [Some (TypeSpec ''User'' (StructType
        [\<lparr>Names = [''Email''], FieldType = Ident ''string'',
          Tag = Some (''`enkodo:'' @ [CHR 0x22, CHR 0x22] @ ''`'')\<rparr>])),
      Some (TypeSpec ''Hidden'' (StructType
        [\<lparr>Names = [''id''], FieldType = Ident ''int'',
          Tag = Some (''`enkodo:'' @ [CHR 0x22, CHR 0x22] @ ''`'')\<rparr>,
         \<lparr>Names = [''Note''], FieldType = Ident ''string'', Tag = None\<rparr>,
         \<lparr>Names = [''Cb''], FieldType = OtherExpr,
          Tag = Some (''`enkodo:'' @ [CHR 0x22, CHR 0x22] @ ''`'')\<rparr>])),
      None] =
   objectsInFile ''main''
     [Some (TypeSpec ''User'' (StructType
        [\<lparr>Names = [''Email''], FieldType = Ident ''string'',
          Tag = Some (''`enkodo:'' @ [CHR 0x22, CHR 0x22] @ ''`'')\<rparr>])),
      None] \<and>
   list_all keepsNoField
     [None, Some OtherDecl, Some (TypeSpec ''Id'' OtherType),
      Some (TypeSpec ''Hidden'' (StructType
        [\<lparr>Names = [''id''], FieldType = Ident ''int'',
          Tag = Some (''`enkodo:'' @ [CHR 0x22, CHR 0x22] @ ''`'')\<rparr>]))] \<and>
   objectsInFile ''main''
     [None, Some OtherDecl, Some (TypeSpec ''Id'' OtherType),
      Some (TypeSpec ''Hidden'' (StructType
        [\<lparr>Names = [''id''], FieldType = Ident ''int'',
          Tag = Some (''`enkodo:'' @ [CHR 0x22, CHR 0x22] @ ''`'')\<rparr>]))] = Inr None"
proof -
  let ?tag = "Some (''`enkodo:'' @ [CHR 0x22, CHR 0x22] @ ''`'')"
  let ?fl = "[\<lparr>Names = [''id''], FieldType = Ident ''int'', Tag = ?tag\<rparr>,
              \<lparr>Names = [''Note''], FieldType = Ident ''string'', Tag = None\<rparr>,
              \<lparr>Names = [''Cb''], FieldType = OtherExpr, Tag = ?tag\<rparr>]"
  let ?user = "Some (TypeSpec ''User'' (StructType
                 [\<lparr>Names = [''Email''], FieldType = Ident ''string'', Tag = ?tag\<rparr>]))"
  let ?objs = "[None, Some OtherDecl, Some (TypeSpec ''Id'' OtherType),
                Some (TypeSpec ''Hidden'' (StructType
                  [\<lparr>Names = [''id''], FieldType = Ident ''int'', Tag = ?tag\<rparr>]))]"
  have skipped: "list_all (\<lambda>fd. StructField fd = Inr None) ?fl"
    by (simp add: reader_defs)
  have none: "list_all keepsNoField ?objs"
    by (simp add: keepsNoField_def reader_defs)
  show ?thesis
    using no_code_for_record_without_kept_fields
            [of ?fl "''Hidden''" "''main''" "[?user]" "[None]" ?objs] skipped none
    by simp
qed

text \<open>
  Claim C9 (the code differs). The mechanism is the one the two lemmas above describe, but
  the loop of \<^verbatim>\<open>GetStructFields\<close> keeps fields that are not eligible. In
  \<^verbatim>\<open>type Meta struct { Version int `json:"enkodo_version"` }\<close> no field carries an enkodo
  annotation; the test is \<^verbatim>\<open>strings.Contains(field.Tag.Value, "enkodo")\<close>, which the text
  of the \<^verbatim>\<open>json\<close> tag passes, so the field is kept and both methods are written for a record
  without eligible fields (the comment at that test says: skip fields that do not have the
  enkodo tag). In a struct \<^verbatim>\<open>Row\<close> whose only field is tagged
  \<^verbatim>\<open>`enkodo:""`\<close> and has a name that starts with a lower-case n with tilde (the UTF-8
  bytes C3 B1), that field is not exported; the test reads
  the first byte as a Latin-1 code point, U+00C3, which is upper case, so the field is kept
  as well (the comment there says: only handle exported variables).
\<close>

theorem code_for_record_without_eligible_fields:
  "objectsInFile ''main''
     [Some (TypeSpec ''Meta'' (StructType
        [\<lparr>Names = [''Version''], FieldType = Ident ''int'',
          Tag = Some (''`json:'' @ [CHR 0x22] @ ''enkodo_version'' @ [CHR 0x22] @ ''`'')\<rparr>]))] =
   Inr (Some
     \<lparr>Header = [''/* This file is auto-generated by enkodo */'', ''package main'', []],
      ImportSet = {''github.com/nullmonk/enkodo''},
      Code =
        [[],
         ''func (m *Meta) MarshalEnkodo(enc *enkodo.Encoder) (err error) {'',
         Repeat ident 1 @ ''enc.Int(m.Version)'',
         Repeat ident 1 @ ''return'',
         ''}'',
         [],
         ''func (m *Meta) UnmarshalEnkodo(dec *enkodo.Decoder) (err error) {'',
         Repeat ident 1 @ ''if m.Version, err = dec.Int(); err != nil {'',
         Repeat ident 2 @ ''return err'',
         Repeat ident 1 @ ''}'',
         Repeat ident 1 @ ''return'',
         ''}'',
         []]\<rparr>) \<and>
   GetStructFields (Some (TypeSpec ''Row'' (StructType
      [\<lparr>Names = [[CHR 0xC3, CHR 0xB1] @ ''ame''], FieldType = Ident ''string'',
        Tag = Some (''`enkodo:'' @ [CHR 0x22, CHR 0x22] @ ''`'')\<rparr>]))) =
     Inr (Some \<lparr>StructName = ''Row'',
                Fields = [\<lparr>Name = [CHR 0xC3, CHR 0xB1] @ ''ame'', Type = ''string'',
                           OverrideType = []\<rparr>],
                declared = None\<rparr>)"
  by (simp add: generator_defs reader_defs file_defs)

subsection \<open>The first name of a field declaration\<close>

lemma StructField_no_name: "Names fd = [] \<Longrightarrow> StructField fd = Inl IndexOutOfRange"
  by (simp add: StructField_def)

lemma StructField_panic: "StructField fd = Inl e \<Longrightarrow> e = IndexOutOfRange"
  by (auto simp: StructField_def Let_def split: list.splits option.splits if_splits)

lemma StructFields_no_name:
  "list_ex (\<lambda>fd. Names fd = []) fieldList \<Longrightarrow> StructFields fieldList = Inl IndexOutOfRange"
proof (induction fieldList)
  case Nil
  then show ?case by simp
next
  case (Cons fd rest)
  show ?case
  proof (cases "StructField fd")
    case (Inl e)
    then show ?thesis using StructField_panic [OF Inl] by simp
  next
    case (Inr r)
    then have "Names fd \<noteq> []" using StructField_no_name [of fd] by auto
    with Cons have "StructFields rest = Inl IndexOutOfRange" by simp
    with Inr show ?thesis by simp
  qed
qed

lemma StructField_named:
  "Names fd \<noteq> [] \<Longrightarrow> hd (Names fd) \<noteq> [] \<Longrightarrow> \<exists>r. StructField fd = Inr r"
  by (auto simp: StructField_def Let_def split: list.splits option.splits)

lemma StructFields_named:
  "list_all (\<lambda>fd. Names fd \<noteq> [] \<and> hd (Names fd) \<noteq> []) fieldList \<Longrightarrow>
   \<exists>fs. StructFields fieldList = Inr fs"
proof (induction fieldList)
  case Nil
  then show ?case by simp
next
  case (Cons fd rest)
  then obtain r fs where "StructField fd = Inr r" and "StructFields rest = Inr fs"
    using StructField_named [of fd] by auto
  then show ?case by simp
qed

lemma StructField_first_name:
  "StructField (fd\<lparr>Names := take (Suc 0) (Names fd)\<rparr>) = StructField fd"
  by (cases "Names fd") (simp_all add: StructField_def)

lemma StructFields_first_name:
  "StructFields (map (\<lambda>fd. fd\<lparr>Names := take (Suc 0) (Names fd)\<rparr>) fieldList) =
   StructFields fieldList"
  by (induction fieldList) (auto simp: StructField_first_name split: sum.splits)

text \<open>
  Claim C10. \<^verbatim>\<open>GetStructFields\<close> reads \<^verbatim>\<open>field.Names[0]\<close> of every field declaration
  before it looks at the tag. If a struct has a field declaration without a name (an
  embedded field), the extraction panics with an index out of range, whatever the other
  fields and the tags are; so it can only return when every declaration has a name, and it
  does return when every declaration has a non-empty first name. Names after the first are
  never read: cutting every declaration down to its first name changes nothing.
\<close>

theorem first_name_read_unconditionally:
  "(list_ex (\<lambda>fd. Names fd = []) fieldList \<longrightarrow>
      GetStructFields (Some (TypeSpec tsName (StructType fieldList))) = Inl IndexOutOfRange) \<and>
   (list_all (\<lambda>fd. Names fd \<noteq> [] \<and> hd (Names fd) \<noteq> []) fieldList \<longrightarrow>
      (\<exists>r. GetStructFields (Some (TypeSpec tsName (StructType fieldList))) = Inr r)) \<and>
   GetStructFields (Some (TypeSpec tsName (StructType
       (map (\<lambda>fd. fd\<lparr>Names := take 1 (Names fd)\<rparr>) fieldList)))) =
     GetStructFields (Some (TypeSpec tsName (StructType fieldList)))"
proof (intro conjI impI)
  assume "list_ex (\<lambda>fd. Names fd = []) fieldList"
  then show "GetStructFields (Some (TypeSpec tsName (StructType fieldList))) = Inl IndexOutOfRange"
    by (simp add: GetStructFields_def StructFields_no_name)
next
  assume "list_all (\<lambda>fd. Names fd \<noteq> [] \<and> hd (Names fd) \<noteq> []) fieldList"
  then obtain fs where "StructFields fieldList = Inr fs"
    using StructFields_named by blast
  then show "\<exists>r. GetStructFields (Some (TypeSpec tsName (StructType fieldList))) = Inr r"
    by (simp add: GetStructFields_def)
next
  show "GetStructFields (Some (TypeSpec tsName (StructType
       (map (\<lambda>fd. fd\<lparr>Names := take 1 (Names fd)\<rparr>) fieldList)))) =
     GetStructFields (Some (TypeSpec tsName (StructType fieldList)))"
    by (simp add: GetStructFields_def StructFields_first_name)
qed

text \<open>
  The witness: \<^verbatim>\<open>type Admin struct { Level int `enkodo:""`; User }\<close> has an embedded
  field, and \<^verbatim>\<open>type Point struct { X, Y int `enkodo:""` }\<close> declares two names at once, of
  which only \<^verbatim>\<open>X\<close> becomes a field.
\<close>

theorem first_name_read_unconditionally_witness:
  "list_ex (\<lambda>fd. Names fd = [])
     [\<lparr>Names = [''Level''], FieldType = Ident ''int'',
       Tag = Some (''`enkodo:'' @ [CHR 0x22, CHR 0x22] @ ''`'')\<rparr>,
      \<lparr>Names = [], FieldType = Ident ''User'', Tag = None\<rparr>] \<and>
   GetStructFields (Some (TypeSpec ''Admin'' (StructType
     [\<lparr>Names = [''Level''], FieldType = Ident ''int'',
       Tag = Some (''`enkodo:'' @ [CHR 0x22, CHR 0x22] @ ''`'')\<rparr>,
      \<lparr>Names = [], FieldType = Ident ''User'', Tag = None\<rparr>]))) = Inl IndexOutOfRange \<and>
   list_all (\<lambda>fd. Names fd \<noteq> [] \<and> hd (Names fd) \<noteq> [])
     [\<lparr>Names = [''X'', ''Y''], FieldType = Ident ''int'',
       Tag = Some (''`enkodo:'' @ [CHR 0x22, CHR 0x22] @ ''`'')\<rparr>] \<and>
   GetStructFields (Some (TypeSpec ''Point'' (StructType
     [\<lparr>Names = [''X'', ''Y''], FieldType = Ident ''int'',
       Tag = Some (''`enkodo:'' @ [CHR 0x22, CHR 0x22] @ ''`'')\<rparr>]))) =
     Inr (Some \<lparr>StructName = ''Point'',
                Fields = [\<lparr>Name = ''X'', Type = ''int'', OverrideType = []\<rparr>],
                declared = None\<rparr>)"
proof -
  let ?tag = "Some (''`enkodo:'' @ [CHR 0x22, CHR 0x22] @ ''`'')"
  let ?admin = "[\<lparr>Names = [''Level''], FieldType = Ident ''int'', Tag = ?tag\<rparr>,
                 \<lparr>Names = [], FieldType = Ident ''User'', Tag = None\<rparr>]"
  let ?point = "[\<lparr>Names = [''X'', ''Y''], FieldType = Ident ''int'', Tag = ?tag\<rparr>]"
  have embedded: "list_ex (\<lambda>fd. Names fd = []) ?admin"
    by simp
  have named: "list_all (\<lambda>fd. Names fd \<noteq> [] \<and> hd (Names fd) \<noteq> []) ?point"
    by simp
  have cut: "GetStructFields (Some (TypeSpec ''Point'' (StructType
               (map (\<lambda>fd. fd\<lparr>Names := take 1 (Names fd)\<rparr>) ?point)))) =
             Inr (Some \<lparr>StructName = ''Point'',
                        Fields = [\<lparr>Name = ''X'', Type = ''int'', OverrideType = []\<rparr>],
                        declared = None\<rparr>)"
    by (simp add: reader_defs)
  show ?thesis
    using first_name_read_unconditionally [of ?admin "''Admin''"]
          first_name_read_unconditionally [of ?point "''Point''"] embedded named cut
    by simp
qed

section \<open>The decode body as a whole\<close>

lemmas text_defs =
  decodeLines_def arrLenDecls_def tempDecls_def tempDeclsOf_def loopHeads_def
  isArrLenDecl_def isTempDecl_def isTempDeclOf_def isLoopHead_def stripTabs_def depth_def

subsection \<open>Lines and their first word\<close>

lemma stripTabs_Repeat [simp]: "stripTabs (Repeat ident n @ s) = stripTabs s"
  by (induction n) (simp_all add: stripTabs_def Repeat_def ident_def)

lemma stripTabs_ident [simp]: "stripTabs (ident @ s) = stripTabs s"
  by (simp add: stripTabs_def ident_def)

lemma depth_Repeat: "depth (Repeat ident n @ s) = n + depth s"
  by (induction n) (simp_all add: depth_def Repeat_def ident_def)

lemma depth_ident: "depth (ident @ s) = Suc (depth s)"
  by (simp add: depth_def ident_def)

lemma keyword_Repeat [simp]: "keyword (Repeat ident n @ s) = keyword s"
  by (simp add: keyword_def)

lemma keyword_ident [simp]: "keyword (ident @ s) = keyword s"
  by (simp add: keyword_def)

lemma keyword_before_space: "keyword (nm @ CHR '' '' # r) = keyword nm"
proof (cases "\<forall>c\<in>set nm. c = CHR 0x09")
  case True
  then have e: "dropWhile (\<lambda>c. c = CHR 0x09) nm = []" by simp
  from True show ?thesis by (simp add: keyword_def stripTabs_def e)
next
  case False
  then have "dropWhile (\<lambda>c. c = CHR 0x09) (nm @ CHR '' '' # r) =
             dropWhile (\<lambda>c. c = CHR 0x09) nm @ CHR '' '' # r"
    by (simp add: dropWhile_append)
  then show ?thesis by (simp add: keyword_def stripTabs_def takeWhile_tail)
qed

lemma keyword_of_temp: "isTempDecl l \<Longrightarrow> keyword l = ''var''"
proof -
  assume "isTempDecl l"
  then have "take 6 (stripTabs l) = ''var t ''" by (simp add: isTempDecl_def)
  then have "stripTabs l = ''var t '' @ drop 6 (stripTabs l)"
    by (metis append_take_drop_id)
  then have "keyword l = takeWhile (\<lambda>c. c \<noteq> CHR '' '') (''var t '' @ drop 6 (stripTabs l))"
    by (simp add: keyword_def)
  then show ?thesis by simp
qed

lemma keyword_of_head: "isLoopHead l \<Longrightarrow> keyword l = ''for''"
  by (simp add: isLoopHead_def keyword_def)

lemma keyword_of_arrLen: "isArrLenDecl l \<Longrightarrow> keyword l = ''var''"
  by (simp add: isArrLenDecl_def keyword_def)

subsection \<open>DecodeField, branch by branch\<close>


lemma DecodeField_arrLen:
  "DecodeField decl n \<lparr>Name = ''_arrLen'', Type = ''int'', OverrideType = []\<rparr> =
     Inr (decl, [Repeat ident n @ ''if _arrLen, err = dec.Int(); err != nil {'',
                 Repeat ident n @ ident @ ''return err'',
                 Repeat ident n @ ''}''])"
  by (simp add: DecodeField.simps registry_defs Let_def)

lemma initType_list:
  "t \<noteq> [] \<Longrightarrow> hd t = CHR ''['' \<Longrightarrow> initType t = Inr (''var t '' @ Trim t ''[]'', ''t'')"
  by (simp add: initType_def)

lemma DecodeField_list:
  assumes "decodesAsList f"
  shows "DecodeField decl n f =
     (case decl of
        None \<Rightarrow> Inl NilMapAssignment
      | Some m \<Rightarrow>
          if length (Type f) < 2 then Inl SliceBoundsOutOfRange
          else
            case DecodeField (Some (if m ''_arrLen'' = None then m(''_arrLen'' \<mapsto> ''int'') else m))
                   (Suc n) \<lparr>Name = ''t'', Type = drop 2 (Type f), OverrideType = []\<rparr> of
              Inl e \<Rightarrow> Inl e
            | Inr (d, body) \<Rightarrow>
                Inr (d,
                     (if m ''_arrLen'' = None then [Repeat ident n @ ''var _arrLen int''] else []) @
                     [Repeat ident n @ ''if _arrLen, err = dec.Int(); err != nil {'',
                      Repeat ident n @ ident @ ''return err'',
                      Repeat ident n @ ''}'',
                      Repeat ident n @ Name f @ '' = make('' @ Type f @ '', 0, _arrLen)'',
                      Repeat ident n @ ''for i := 0; i < _arrLen; i++ {'',
                      Repeat ident n @ ident @ ''var t '' @ Trim (Type f) ''[]''] @
                     body @
                     [Repeat ident n @ ident @ Name f @ '' = append('' @ Name f @ '', t)'',
                      Repeat ident n @ ''}'']))"
proof -
  from assms have t: "Type f \<noteq> []" "hd (Type f) = CHR ''[''" "length (Type f) \<noteq> 2"
      "Type f \<noteq> ''[]byte''"
      "enc_types_advanced (if OverrideType f \<noteq> [] then OverrideType f else Type f) = None"
    by (simp_all add: decodesAsList_def)
  show ?thesis
  proof (cases decl)
    case None
    then show ?thesis
      by (subst DecodeField.simps) (simp add: t Let_def)
  next
    case (Some m)
    show ?thesis
    proof (cases "m ''_arrLen''")
      case None
      with Some show ?thesis
        by (subst DecodeField.simps)
           (simp add: t Let_def DecodeField_arrLen initType_list split: sum.splits)
    next
      case (Some x)
      with \<open>decl = Some m\<close> show ?thesis
        by (subst DecodeField.simps)
           (simp add: t Let_def DecodeField_arrLen initType_list split: sum.splits)
    qed
  qed
qed

lemma keyword_Cons [simp]:
  "c \<noteq> CHR 0x09 \<Longrightarrow> keyword (c # s) = takeWhile (\<lambda>c. c \<noteq> CHR '' '') (c # s)"
  by (simp add: keyword_def stripTabs_def)

lemma keyword_Nil [simp]: "keyword [] = []"
  by (simp add: keyword_def stripTabs_def)

lemma DecodeField_leaf:
  assumes "\<not> decodesAsList f"
  shows "\<exists>ls. DecodeField decl n f = Inr (decl, ls) \<and>
              (\<forall>l\<in>set ls. keyword l \<in> {''//'', ''if'', ''return'', ''}'', keyword (Name f)})"
proof -
  let ?eff = "if OverrideType f \<noteq> [] then OverrideType f else Type f"
  consider
      (unknown) "Type f = [] \<or> (hd (Type f) = CHR ''['' \<and> length (Type f) = 2)"
    | (bytes) "\<not> (Type f = [] \<or> (hd (Type f) = CHR ''['' \<and> length (Type f) = 2))"
        "Type f = ''[]byte''"
    | (prim) conv where "\<not> (Type f = [] \<or> (hd (Type f) = CHR ''['' \<and> length (Type f) = 2))"
        "Type f \<noteq> ''[]byte''" "enc_types_advanced ?eff = Some conv"
    | (pointer) "\<not> (Type f = [] \<or> (hd (Type f) = CHR ''['' \<and> length (Type f) = 2))"
        "Type f \<noteq> ''[]byte''" "enc_types_advanced ?eff = None" "hd (Type f) = CHR ''*''"
    | (other) "\<not> (Type f = [] \<or> (hd (Type f) = CHR ''['' \<and> length (Type f) = 2))"
        "Type f \<noteq> ''[]byte''" "enc_types_advanced ?eff = None" "hd (Type f) \<noteq> CHR ''*''"
        "hd (Type f) \<noteq> CHR ''[''"
    using assms unfolding decodesAsList_def by (cases "enc_types_advanced ?eff") auto
  then show ?thesis
  proof cases
    case unknown
    then show ?thesis
      by (subst DecodeField.simps) (simp add: Let_def)
  next
    case bytes
    then show ?thesis
      by (subst DecodeField.simps) (simp add: Let_def keyword_before_space)
  next
    case prim
    then show ?thesis
      by (subst DecodeField.simps) (simp add: Let_def keyword_before_space)
  next
    case pointer
    then show ?thesis
      by (subst DecodeField.simps) (simp add: Let_def keyword_before_space)
  next
    case other
    then show ?thesis
      by (subst DecodeField.simps) (simp add: Let_def)
  qed
qed

subsection \<open>Classifying the lines of the decode body\<close>

lemma not_var_line:
  "keyword l \<noteq> ''var'' \<Longrightarrow> \<not> isTempDecl l \<and> \<not> isArrLenDecl l"
  using keyword_of_temp keyword_of_arrLen by blast

lemma not_for_line: "keyword l \<noteq> ''for'' \<Longrightarrow> \<not> isLoopHead l"
  using keyword_of_head by blast

lemma stripTabs_Cons [simp]: "c \<noteq> CHR 0x09 \<Longrightarrow> stripTabs (c # s) = c # s"
  by (simp add: stripTabs_def)

lemma depth_Cons [simp]: "c \<noteq> CHR 0x09 \<Longrightarrow> depth (c # s) = 0"
  by (simp add: depth_def)

lemma arrLen_line [simp]:
  "isArrLenDecl (Repeat ident n @ ''var _arrLen int'')"
  "\<not> isTempDecl (Repeat ident n @ ''var _arrLen int'')"
  "\<not> isLoopHead (Repeat ident n @ ''var _arrLen int'')"
  by (simp_all add: isArrLenDecl_def isTempDecl_def isLoopHead_def)

lemma head_line [simp]:
  "isLoopHead (Repeat ident n @ ''for i := 0; i < _arrLen; i++ {'')"
  "\<not> isTempDecl (Repeat ident n @ ''for i := 0; i < _arrLen; i++ {'')"
  "\<not> isArrLenDecl (Repeat ident n @ ''for i := 0; i < _arrLen; i++ {'')"
  "depth (Repeat ident n @ ''for i := 0; i < _arrLen; i++ {'') = n"
  by (simp_all add: isArrLenDecl_def isTempDecl_def isLoopHead_def depth_Repeat)

lemma temp_line [simp]:
  "isTempDecl (Repeat ident n @ ident @
     CHR ''v'' # CHR ''a'' # CHR ''r'' # CHR '' '' # CHR ''t'' # CHR '' '' # T)"
  "\<not> isLoopHead (Repeat ident n @ ident @
     CHR ''v'' # CHR ''a'' # CHR ''r'' # CHR '' '' # CHR ''t'' # CHR '' '' # T)"
  "\<not> isArrLenDecl (Repeat ident n @ ident @
     CHR ''v'' # CHR ''a'' # CHR ''r'' # CHR '' '' # CHR ''t'' # CHR '' '' # T)"
  "depth (Repeat ident n @ ident @
     CHR ''v'' # CHR ''a'' # CHR ''r'' # CHR '' '' # CHR ''t'' # CHR '' '' # T) = Suc n"
  by (simp_all add: isArrLenDecl_def isTempDecl_def isLoopHead_def depth_Repeat depth_ident)

lemma plain_lines:
  assumes "\<forall>l\<in>set ls. keyword l \<noteq> ''var'' \<and> keyword l \<noteq> ''for''"
  shows "loopTemps ls" and "arrLenDecls ls = 0" and "loopHeads ls = 0" and "tempDecls ls = 0"
proof -
  from assms have no: "\<forall>l\<in>set ls. \<not> isTempDecl l \<and> \<not> isArrLenDecl l \<and> \<not> isLoopHead l"
    using not_var_line not_for_line by blast
  then show "loopTemps ls"
    by (induction ls rule: loopTemps.induct) simp_all
  from no show "arrLenDecls ls = 0" and "loopHeads ls = 0" and "tempDecls ls = 0"
    by (simp_all add: arrLenDecls_def loopHeads_def tempDecls_def)
qed

lemma loopTemps_append: "loopTemps xs \<Longrightarrow> loopTemps ys \<Longrightarrow> loopTemps (xs @ ys)"
proof (induction xs rule: loopTemps.induct)
  case 1
  then show ?case by simp
next
  case (2 l)
  then show ?case by (cases ys) simp_all
next
  case (3 h d rest)
  then show ?case by (simp split: if_splits)
qed

lemma head_not_temp: "isLoopHead l \<Longrightarrow> \<not> isTempDecl l"
  using keyword_of_head [of l] keyword_of_temp [of l] by auto

lemma loopTemps_counts: "loopTemps ls \<Longrightarrow> tempDecls ls = loopHeads ls"
  by (induction ls rule: loopTemps.induct)
     (auto simp: tempDecls_def loopHeads_def split: if_splits dest: head_not_temp)

lemma counts_append [simp]:
  "arrLenDecls (xs @ ys) = arrLenDecls xs + arrLenDecls ys"
  "loopHeads (xs @ ys) = loopHeads xs + loopHeads ys"
  "tempDecls (xs @ ys) = tempDecls xs + tempDecls ys"
  by (simp_all add: arrLenDecls_def loopHeads_def tempDecls_def)

subsection \<open>What every decode body satisfies\<close>

lemma plainName_t [simp]: "plainName ''t''"
  by (simp add: plainName_def)

lemma DecodeField_invariant:
  "plainName (Name f) \<Longrightarrow> DecodeField (Some m) n f = Inr (d', ls) \<Longrightarrow>
   \<exists>m'. d' = Some m' \<and> loopTemps ls \<and>
        arrLenDecls ls + arrLenDeclared m = arrLenDeclared m' \<and>
        arrLenDecls ls \<le> loopHeads ls \<and>
        (0 < loopHeads ls \<longrightarrow> arrLenDeclared m' = 1)"
proof (induction "length (Type f)" arbitrary: f m n d' ls rule: less_induct)
  case less
  show ?case
  proof (cases "decodesAsList f")
    case False
    from DecodeField_leaf [OF False, of "Some m" n] less.prems(2)
    have d: "d' = Some m"
      and kw: "\<forall>l\<in>set ls. keyword l \<in> {''//'', ''if'', ''return'', ''}'', keyword (Name f)}"
      by auto
    from kw less.prems(1) have "\<forall>l\<in>set ls. keyword l \<noteq> ''var'' \<and> keyword l \<noteq> ''for''"
      by (auto simp: plainName_def)
    from plain_lines [OF this] d show ?thesis by simp
  next
    case True
    let ?m1 = "if m ''_arrLen'' = None then m(''_arrLen'' \<mapsto> ''int'') else m"
    let ?elem = "\<lparr>Name = ''t'', Type = drop 2 (Type f), OverrideType = []\<rparr>"
    let ?pre = "if m ''_arrLen'' = None then [Repeat ident n @ ''var _arrLen int''] else []"
    let ?mid = "[Repeat ident n @ ''if _arrLen, err = dec.Int(); err != nil {'',
                 Repeat ident n @ ident @ ''return err'',
                 Repeat ident n @ ''}'',
                 Repeat ident n @ Name f @ '' = make('' @ Type f @ '', 0, _arrLen)'']"
    let ?loop = "[Repeat ident n @ ''for i := 0; i < _arrLen; i++ {'',
                  Repeat ident n @ ident @ ''var t '' @ Trim (Type f) ''[]'']"
    let ?post = "[Repeat ident n @ ident @ Name f @ '' = append('' @ Name f @ '', t)'',
                  Repeat ident n @ ''}'']"
    from less.prems(2) DecodeField_list [OF True, of "Some m" n]
    obtain body where len: "\<not> length (Type f) < 2"
      and rec: "DecodeField (Some ?m1) (Suc n) ?elem = Inr (d', body)"
      and ls: "ls = ?pre @ ?mid @ ?loop @ body @ ?post"
      by (auto split: if_splits sum.splits)
    from True len have shorter: "length (Type ?elem) < length (Type f)"
      by (simp add: decodesAsList_def)
    from less.hyps [OF shorter _ rec]
    obtain m' where m': "d' = Some m'" and lt: "loopTemps body"
      and cnt: "arrLenDecls body + arrLenDeclared ?m1 = arrLenDeclared m'"
      and le: "arrLenDecls body \<le> loopHeads body"
      by auto
    have one: "arrLenDeclared ?m1 = 1"
      by (simp add: arrLenDeclared_def)
    have name_kw: "keyword (Name f) \<noteq> ''var''" "keyword (Name f) \<noteq> ''for''"
      using less.prems(1) by (simp_all add: plainName_def)
    have mid_kw: "\<forall>l\<in>set ?mid. keyword l \<noteq> ''var'' \<and> keyword l \<noteq> ''for''"
      using name_kw by (simp add: keyword_before_space)
    have post_kw: "\<forall>l\<in>set ?post. keyword l \<noteq> ''var'' \<and> keyword l \<noteq> ''for''"
      using name_kw by (simp add: keyword_before_space)
    have pre_lt: "loopTemps ?pre" and pre_heads: "loopHeads ?pre = 0"
      and pre_decls: "arrLenDecls ?pre + arrLenDeclared m = 1"
      by (simp_all add: loopHeads_def arrLenDecls_def arrLenDeclared_def)
    have loop_lt: "loopTemps ?loop" and loop_heads: "loopHeads ?loop = 1"
      and loop_decls: "arrLenDecls ?loop = 0"
      by (simp_all add: loopHeads_def arrLenDecls_def)
    have "loopTemps ls"
      unfolding ls
      by (intro loopTemps_append pre_lt loop_lt lt plain_lines(1) [OF mid_kw]
            plain_lines(1) [OF post_kw])
    moreover have "arrLenDecls ls + arrLenDeclared m = arrLenDeclared m'"
      using cnt one pre_decls loop_decls plain_lines(2) [OF mid_kw] plain_lines(2) [OF post_kw]
      unfolding ls counts_append by linarith
    moreover have "arrLenDecls ls \<le> loopHeads ls"
      using cnt one le pre_decls pre_heads loop_decls loop_heads
        plain_lines(2) [OF mid_kw] plain_lines(2) [OF post_kw]
        plain_lines(3) [OF mid_kw] plain_lines(3) [OF post_kw]
      unfolding ls counts_append by linarith
    moreover have "arrLenDeclared m' = 1"
      using cnt one by (simp add: arrLenDeclared_def split: if_splits)
    ultimately show ?thesis using m' by simp
  qed
qed

lemma keyword_tab [simp]: "keyword (CHR 0x09 # s) = keyword s"
  by (simp add: keyword_def stripTabs_def)

lemma plainName_dot: "plainName (x # CHR ''.'' # nm)"
proof (cases "x = CHR 0x09")
  case True
  then show ?thesis by (simp add: plainName_def)
next
  case False
  then show ?thesis by (cases "x = CHR '' ''") (simp_all add: plainName_def)
qed

lemma ToLowerByte_shape:
  "ToLowerByte c = [CHR 0xEF, CHR 0xBF, CHR 0xBD] \<or> (\<exists>x. ToLowerByte c = [x])"
  by (simp add: ToLowerByte_def split: option.splits)

lemma plainName_field: "plainName (ToLowerByte c @ CHR ''.'' # nm)"
  using ToLowerByte_shape [of c]
proof
  assume "ToLowerByte c = [CHR 0xEF, CHR 0xBF, CHR 0xBD]"
  then show ?thesis by (simp add: plainName_def)
next
  assume "\<exists>x. ToLowerByte c = [x]"
  then show ?thesis using plainName_dot by auto
qed

lemma arrLenDeclared_le: "arrLenDeclared m \<le> 1"
  by (simp add: arrLenDeclared_def)

lemma DecodeFields_invariant:
  "DecodeFields (Some m) (ToLowerByte c) fs = Inr (d', ls) \<Longrightarrow>
   \<exists>m'. d' = Some m' \<and> loopTemps ls \<and>
        arrLenDecls ls + arrLenDeclared m = arrLenDeclared m' \<and>
        arrLenDecls ls \<le> loopHeads ls \<and>
        (0 < loopHeads ls \<longrightarrow> arrLenDeclared m' = 1)"
proof (induction fs arbitrary: m d' ls)
  case Nil
  then show ?case by (auto simp: arrLenDecls_def loopHeads_def)
next
  case (Cons f rest)
  let ?f = "f\<lparr>Name := ToLowerByte c @ ''.'' @ Name f\<rparr>"
  from Cons.prems obtain d1 l1 l2 where
    first: "DecodeField (Some m) 1 ?f = Inr (d1, l1)" and
    others: "DecodeFields d1 (ToLowerByte c) rest = Inr (d', l2)" and
    ls: "ls = l1 @ l2"
    by (auto split: sum.splits)
  have "plainName (Name ?f)" by (simp add: plainName_field)
  from DecodeField_invariant [OF this first]
  obtain m1 where m1: "d1 = Some m1" and lt1: "loopTemps l1"
    and c1: "arrLenDecls l1 + arrLenDeclared m = arrLenDeclared m1"
    and le1: "arrLenDecls l1 \<le> loopHeads l1"
    and h1: "0 < loopHeads l1 \<longrightarrow> arrLenDeclared m1 = 1"
    by auto
  from Cons.IH [OF others [unfolded m1]]
  obtain m' where m': "d' = Some m'" and lt2: "loopTemps l2"
    and c2: "arrLenDecls l2 + arrLenDeclared m1 = arrLenDeclared m'"
    and le2: "arrLenDecls l2 \<le> loopHeads l2"
    and h2: "0 < loopHeads l2 \<longrightarrow> arrLenDeclared m' = 1"
    by auto
  have "loopTemps ls" unfolding ls using lt1 lt2 by (rule loopTemps_append)
  moreover have "arrLenDecls ls + arrLenDeclared m = arrLenDeclared m'"
    unfolding ls using c1 c2 by simp
  moreover have "arrLenDecls ls \<le> loopHeads ls"
    unfolding ls using le1 le2 by simp
  moreover have "0 < loopHeads ls \<longrightarrow> arrLenDeclared m' = 1"
    unfolding ls using h1 h2 c2 arrLenDeclared_le [of m'] by auto
  ultimately show ?case using m' by simp
qed

lemma decodeLines_shape:
  "decodeLines s = [] \<or>
   (\<exists>c d body.
      DecodeFields (Some Map.empty) (ToLowerByte c) (Fields s) = Inr (d, body) \<and>
      decodeLines s =
        [''func ('' @ ToLowerByte c @ '' *'' @ StructName s
           @ '') UnmarshalEnkodo(dec *enkodo.Decoder) (err error) {''] @
        body @ [ident @ ''return'', ''}'', []])"
  by (cases "StructName s")
     (auto simp: decodeLines_def EncodeFunc_def DecodeFunc_def Let_def split: sum.splits)

lemma decodeLines_invariant:
  "loopTemps (decodeLines s) \<and>
   arrLenDecls (decodeLines s) = (if loopHeads (decodeLines s) = 0 then 0 else 1)"
  using decodeLines_shape [of s]
proof
  assume "decodeLines s = []"
  then show ?thesis by (simp add: arrLenDecls_def loopHeads_def)
next
  assume "\<exists>c d body.
      DecodeFields (Some Map.empty) (ToLowerByte c) (Fields s) = Inr (d, body) \<and>
      decodeLines s =
        [''func ('' @ ToLowerByte c @ '' *'' @ StructName s
           @ '') UnmarshalEnkodo(dec *enkodo.Decoder) (err error) {''] @
        body @ [ident @ ''return'', ''}'', []]"
  then obtain c d body where
    fields: "DecodeFields (Some Map.empty) (ToLowerByte c) (Fields s) = Inr (d, body)" and
    shape: "decodeLines s =
        [''func ('' @ ToLowerByte c @ '' *'' @ StructName s
           @ '') UnmarshalEnkodo(dec *enkodo.Decoder) (err error) {''] @
        body @ [ident @ ''return'', ''}'', []]"
    by blast
  let ?head = "[''func ('' @ ToLowerByte c @ '' *'' @ StructName s
                 @ '') UnmarshalEnkodo(dec *enkodo.Decoder) (err error) {'']"
  let ?foot = "[ident @ ''return'', ''}'', []]"
  from DecodeFields_invariant [OF fields]
  obtain m' where lt: "loopTemps body"
    and cnt: "arrLenDecls body + arrLenDeclared Map.empty = arrLenDeclared m'"
    and le: "arrLenDecls body \<le> loopHeads body"
    and hd: "0 < loopHeads body \<longrightarrow> arrLenDeclared m' = 1"
    by auto
  have head_kw: "\<forall>l\<in>set ?head. keyword l \<noteq> ''var'' \<and> keyword l \<noteq> ''for''"
    by simp
  have foot_kw: "\<forall>l\<in>set ?foot. keyword l \<noteq> ''var'' \<and> keyword l \<noteq> ''for''"
    by simp
  have "loopTemps (decodeLines s)"
    unfolding shape
    by (intro loopTemps_append lt plain_lines(1) [OF head_kw] plain_lines(1) [OF foot_kw])
  moreover have "arrLenDecls (decodeLines s) = arrLenDecls body"
    unfolding shape counts_append
    using plain_lines(2) [OF head_kw] plain_lines(2) [OF foot_kw] by simp
  moreover have "loopHeads (decodeLines s) = loopHeads body"
    unfolding shape counts_append
    using plain_lines(3) [OF head_kw] plain_lines(3) [OF foot_kw] by simp
  moreover have "arrLenDecls body = (if loopHeads body = 0 then 0 else 1)"
    using cnt le hd by (auto simp: arrLenDeclared_def)
  ultimately show ?thesis by simp
qed

subsection \<open>The temporary of a decode loop\<close>

text \<open>
  The claim as stated fails: for a struct with two sibling fields of type \<^verbatim>\<open>[]int64\<close> the
  decode body declares the temporary of type \<^verbatim>\<open>int64\<close> twice, once in each loop.
\<close>

theorem sibling_lists_declare_temporary_twice:
  "\<not> tempDeclsOf ''int64'' (decodeLines
        \<lparr>StructName = ''Pair'',
         Fields = [\<lparr>Name = ''A'', Type = ''[]int64'', OverrideType = []\<rparr>,
                   \<lparr>Name = ''B'', Type = ''[]int64'', OverrideType = []\<rparr>],
         declared = None\<rparr>) \<le> 1"
  by (simp add: generator_defs text_defs)

text \<open>
  Claim C4, as amended. In the decode body of every struct, every loop head is directly
  followed by a declaration of the temporary \<^verbatim>\<open>t\<close>, one level deeper (the first statement
  of that loop's own block), and the temporary is declared nowhere else. So there is one
  declaration for each list loop, not one for each element type, and the declarations of
  sibling list fields are in different blocks.
\<close>

theorem temporary_declared_in_every_loop:
  "loopTemps (decodeLines s) \<and> tempDecls (decodeLines s) = loopHeads (decodeLines s)"
  using decodeLines_invariant [of s] loopTemps_counts [of "decodeLines s"] by simp

theorem temporary_declared_in_every_loop_witness:
  "loopTemps (decodeLines
     \<lparr>StructName = ''Pair'',
      Fields = [\<lparr>Name = ''A'', Type = ''[]int64'', OverrideType = []\<rparr>,
                \<lparr>Name = ''B'', Type = ''[]int64'', OverrideType = []\<rparr>],
      declared = None\<rparr>) \<and>
   tempDecls (decodeLines
     \<lparr>StructName = ''Pair'',
      Fields = [\<lparr>Name = ''A'', Type = ''[]int64'', OverrideType = []\<rparr>,
                \<lparr>Name = ''B'', Type = ''[]int64'', OverrideType = []\<rparr>],
      declared = None\<rparr>) = 2 \<and>
   loopHeads (decodeLines
     \<lparr>StructName = ''Pair'',
      Fields = [\<lparr>Name = ''A'', Type = ''[]int64'', OverrideType = []\<rparr>,
                \<lparr>Name = ''B'', Type = ''[]int64'', OverrideType = []\<rparr>],
      declared = None\<rparr>) = 2"
proof -
  let ?s = "\<lparr>StructName = ''Pair'',
      Fields = [\<lparr>Name = ''A'', Type = ''[]int64'', OverrideType = []\<rparr>,
                \<lparr>Name = ''B'', Type = ''[]int64'', OverrideType = []\<rparr>],
      declared = None\<rparr>"
  have "loopHeads (decodeLines ?s) = 2"
    by (simp add: generator_defs text_defs)
  with temporary_declared_in_every_loop [of ?s] show ?thesis by simp
qed

subsection \<open>List fields\<close>



end
